theory Spec2Isabelle
  imports Main "HOL-Library.Sublist"
begin

section \<open>Strings\<close>

text \<open>
  The launcher of \<^verbatim>\<open>scripts-runner.ts\<close> works on strings and arrays of strings. A
  string is a \<^typ>\<open>string\<close>, an array of strings a \<^typ>\<open>string list\<close>. The
  characters of HOL are bytes, and a string is the list of its bytes in UTF-8: an ASCII
  character is one byte below 128, and every byte of another character is 128 or above.
  So an ASCII pattern occurs in a string exactly where its bytes occur in the bytes of
  the string.
\<close>

definition upper_letters :: string where
  "upper_letters = ''ABCDEFGHIJKLMNOPQRSTUVWXYZ''"

definition lower_letters :: string where
  "lower_letters = ''abcdefghijklmnopqrstuvwxyz''"

text \<open>The lower case form of an ASCII string: A to Z become a to z.\<close>

definition lowerAsciiChar :: "char \<Rightarrow> char" where
  "lowerAsciiChar c =
     (case map_of (zip upper_letters lower_letters) c of Some l \<Rightarrow> l | None \<Rightarrow> c)"

definition lowerAscii :: "string \<Rightarrow> string" where
  "lowerAscii s = map lowerAsciiChar s"

text \<open>
  \<^verbatim>\<open>String.prototype.toLowerCase\<close>. On a string of ASCII characters it is
  \<open>lowerAscii\<close>. On a string with another character it follows the case tables of
  Unicode that the runtime carries (the Kelvin sign U+212A, for one, becomes
  \<^verbatim>\<open>k\<close>): these are the parameter \<open>lower\<close>, any function on strings.
\<close>

definition isAscii :: "string \<Rightarrow> bool" where
  "isAscii s = list_all (\<lambda>c. \<not> digit7 c) s"

definition toLowerCase :: "(string \<Rightarrow> string) \<Rightarrow> string \<Rightarrow> string" where
  "toLowerCase lower s = (if isAscii s then lowerAscii s else lower s)"

text \<open>
  \<^verbatim>\<open>String.prototype.includes\<close>: the pattern starts at some position of the
  string. \<open>startsWith\<close> compares the pattern with the characters at the current
  position, \<open>includes_str\<close> tries every position from left to right.
\<close>

fun startsWith :: "string \<Rightarrow> string \<Rightarrow> bool" where
  "startsWith s [] = True"
| "startsWith [] (p # ps) = False"
| "startsWith (c # cs) (p # ps) = (c = p \<and> startsWith cs ps)"

fun includes_str :: "string \<Rightarrow> string \<Rightarrow> bool" where
  "includes_str [] pat = startsWith [] pat"
| "includes_str (c # cs) pat = (startsWith (c # cs) pat \<or> includes_str cs pat)"

text \<open>\<^verbatim>\<open>String.prototype.endsWith\<close>: the last characters of the string are the suffix.\<close>

definition endsWith :: "string \<Rightarrow> string \<Rightarrow> bool" where
  "endsWith s suf =
     (length suf \<le> length s \<and> drop (length s - length suf) s = suf)"

text \<open>
  The regular expression \<^verbatim>\<open>/\.tsx?$/i\<close>. Under the flag \<^verbatim>\<open>i\<close> two characters
  match when their canonical (upper case) forms are equal. \<open>match_tsx\<close> is a match
  of the whole pattern at the current position: a dot, \<^verbatim>\<open>t\<close>, \<^verbatim>\<open>s\<close>, one optional
  \<^verbatim>\<open>x\<close>, then the end of the input. \<open>test_tsx\<close> is \<^verbatim>\<open>RegExp.prototype.test\<close>,
  which tries the positions from left to right.
\<close>

definition canonicalize :: "char \<Rightarrow> char" where
  "canonicalize c =
     (case map_of (zip lower_letters upper_letters) c of Some u \<Rightarrow> u | None \<Rightarrow> c)"

definition same_ci :: "char \<Rightarrow> char \<Rightarrow> bool" where
  "same_ci a b = (canonicalize a = canonicalize b)"

fun match_tsx :: "string \<Rightarrow> bool" where
  "match_tsx [d, t, s] =
     (d = CHR ''.'' \<and> same_ci t (CHR ''t'') \<and> same_ci s (CHR ''s''))"
| "match_tsx [d, t, s, x] =
     (d = CHR ''.'' \<and> same_ci t (CHR ''t'') \<and> same_ci s (CHR ''s'') \<and> same_ci x (CHR ''x''))"
| "match_tsx cs = False"

fun test_tsx :: "string \<Rightarrow> bool" where
  "test_tsx [] = match_tsx []"
| "test_tsx (c # cs) = (match_tsx (c # cs) \<or> test_tsx cs)"

section \<open>The argument deriver\<close>

text \<open>
  \<^verbatim>\<open>withFixedInspectArg\<close> maps \<^verbatim>\<open>fixIfInspectArg\<close> over the array: an argument
  whose lower case form includes \<^verbatim>\<open>--inspect-brk=\<close> becomes \<^verbatim>\<open>--inspect\<close>.
\<close>

definition fixIfInspectArg :: "(string \<Rightarrow> string) \<Rightarrow> string \<Rightarrow> string" where
  "fixIfInspectArg lower arg =
     (if includes_str (toLowerCase lower arg) ''--inspect-brk='' then ''--inspect'' else arg)"

definition withFixedInspectArg :: "(string \<Rightarrow> string) \<Rightarrow> string list \<Rightarrow> string list" where
  "withFixedInspectArg lower argv = map (fixIfInspectArg lower) argv"

text \<open>
  What the launcher reads from its surroundings: \<^verbatim>\<open>process.execArgv\<close>,
  \<^verbatim>\<open>process.env\<close>, the module's \<^verbatim>\<open>__filename\<close> and \<^verbatim>\<open>__dirname\<close>,
  \<^verbatim>\<open>path.join\<close> of the runtime's library (a function of its segments), and the
  runtime's lower-casing of the strings that are not ASCII.
\<close>

record host =
  execArgv :: "string list"
  env :: "string \<rightharpoonup> string"
  filename :: string
  dirname :: string
  path_join :: "string list \<Rightarrow> string"
  unicodeLower :: "string \<Rightarrow> string"

text \<open>
  \<^verbatim>\<open>getTsNodeArgsIfNeeded\<close>: nothing when \<^verbatim>\<open>process.execArgv\<close> has the element
  \<^verbatim>\<open>ts-node/register\<close> (\<^verbatim>\<open>Array.prototype.includes\<close> compares whole elements);
  otherwise the loader pair when the script's path matches \<^verbatim>\<open>/\.tsx?$/i\<close> or the
  launcher's own file name ends with \<^verbatim>\<open>.ts\<close>; otherwise nothing.
\<close>

definition getTsNodeArgsIfNeeded :: "host \<Rightarrow> string \<Rightarrow> string list" where
  "getTsNodeArgsIfNeeded h path =
     (if ''ts-node/register'' \<in> set (execArgv h) then []
      else if test_tsx path \<or> endsWith (filename h) ''.ts''
        then [''--require'', ''ts-node/register'']
      else [])"

section \<open>The script launcher\<close>

text \<open>
  The four parameters of \<^verbatim>\<open>runScript\<close>. A parameter left out by the caller has its
  default: the empty array, the empty object.
\<close>

record request =
  scriptPath :: string
  scriptArgs :: "string list"
  extraNodeArgs :: "string list"
  extraEnvVars :: "string \<rightharpoonup> string"

text \<open>
  The call \<^verbatim>\<open>fork(scriptPath, scriptArgs, {stdio, execArgv, env})\<close>. An object
  spread \<^verbatim>\<open>{...a, ...b}\<close> is the map \<open>a ++ b\<close>: the keys of both, with the value
  of \<open>b\<close> where both have the key.
\<close>

record fork_call =
  modulePath :: string
  args :: "string list"
  opt_stdio :: string
  opt_execArgv :: "string list"
  opt_env :: "string \<rightharpoonup> string"

definition nodeArgs :: "host \<Rightarrow> request \<Rightarrow> string list" where
  "nodeArgs h r =
     withFixedInspectArg (unicodeLower h) (execArgv h) @
       getTsNodeArgsIfNeeded h (scriptPath r) @ extraNodeArgs r"

definition envVars :: "host \<Rightarrow> request \<Rightarrow> (string \<rightharpoonup> string)" where
  "envVars h r = env h ++ extraEnvVars r"

definition forked :: "host \<Rightarrow> request \<Rightarrow> fork_call" where
  "forked h r =
     \<lparr>modulePath = scriptPath r, args = scriptArgs r, opt_stdio = ''inherit'',
      opt_execArgv = nodeArgs h r, opt_env = envVars h r\<rparr>"

text \<open>
  The promise that \<^verbatim>\<open>runScript\<close> returns, and the two listeners on the child
  process. The status of a \<^verbatim>\<open>close\<close> event is a number or \<^verbatim>\<open>null\<close>. A promise
  is settled by the first call of \<^verbatim>\<open>resolve\<close> or \<^verbatim>\<open>reject\<close>; a later call
  changes nothing. A listener registered with \<^verbatim>\<open>once\<close> is removed when its event
  is emitted for the first time, and an event without a listener reaches none.
\<close>

datatype 'e promise = Pending | Resolved "int option" | Rejected 'e

datatype 'e child_event = Close "int option" | Error 'e

datatype log_line = Creating string | ExitedWith string "int option"

record 'e launch =
  promise :: "'e promise"
  onceClose :: bool
  onceError :: bool
  logged :: "log_line list"

definition resolve :: "int option \<Rightarrow> 'e launch \<Rightarrow> 'e launch" where
  "resolve status l = (if promise l = Pending then l\<lparr>promise := Resolved status\<rparr> else l)"

definition reject :: "'e \<Rightarrow> 'e launch \<Rightarrow> 'e launch" where
  "reject err l = (if promise l = Pending then l\<lparr>promise := Rejected err\<rparr> else l)"

text \<open>The listener of \<^verbatim>\<open>close\<close> writes its log line, then resolves.\<close>

definition closeListener :: "string \<Rightarrow> int option \<Rightarrow> 'e launch \<Rightarrow> 'e launch" where
  "closeListener path status l =
     resolve status (l\<lparr>logged := logged l @ [ExitedWith path status]\<rparr>)"

fun emit :: "string \<Rightarrow> 'e child_event \<Rightarrow> 'e launch \<Rightarrow> 'e launch" where
  "emit path (Close status) l =
     (if onceClose l then closeListener path status (l\<lparr>onceClose := False\<rparr>) else l)"
| "emit path (Error err) l =
     (if onceError l then reject err (l\<lparr>onceError := False\<rparr>) else l)"

fun emit_all :: "string \<Rightarrow> 'e child_event list \<Rightarrow> 'e launch \<Rightarrow> 'e launch" where
  "emit_all path [] l = l"
| "emit_all path (ev # evs) l = emit_all path evs (emit path ev l)"

text \<open>
  \<^verbatim>\<open>new Promise(executor)\<close>: the promise is created pending and no listener is
  registered yet. The executor calls \<^verbatim>\<open>fork\<close> and then registers the two listeners
  on the handle that \<^verbatim>\<open>fork\<close> returns; \<open>subscribed\<close> is the state after that.
  When \<^verbatim>\<open>fork\<close> throws instead (as it does for a module path with a null byte),
  the executor ends there: the promise is rejected with what was thrown and no listener
  is ever registered.
\<close>

definition created :: "'e launch" where
  "created = \<lparr>promise = Pending, onceClose = False, onceError = False, logged = []\<rparr>"

definition subscribed :: "'e launch" where
  "subscribed = \<lparr>promise = Pending, onceClose = True, onceError = True, logged = []\<rparr>"

text \<open>
  What the call of \<^verbatim>\<open>fork\<close> does: it throws, or it returns the handle of a child
  process, which then emits its events in their order.
\<close>

datatype 'e forking = Threw 'e | Spawned "'e child_event list"

text \<open>
  \<^verbatim>\<open>runScript\<close>: the call of \<^verbatim>\<open>fork\<close> it makes, and the promise, the listeners
  and the log after what \<^verbatim>\<open>fork\<close> and the child process have done.
\<close>

definition runScript :: "host \<Rightarrow> request \<Rightarrow> 'e forking \<Rightarrow> fork_call \<times> 'e launch" where
  "runScript h r child =
     (forked h r,
      case child of
        Threw err \<Rightarrow> reject err created
      | Spawned evs \<Rightarrow> emit_all (scriptPath r) evs subscribed)"

text \<open>
  The events that reach the launcher: none when \<^verbatim>\<open>fork\<close> threw. How often the
  promise changes while the events are delivered: a step counts when the
  promise after it differs from the promise before it.
\<close>

fun emitted :: "'e forking \<Rightarrow> 'e child_event list" where
  "emitted (Threw err) = []"
| "emitted (Spawned evs) = evs"

text \<open>The statuses of the \<^verbatim>\<open>close\<close> events and the errors of the \<^verbatim>\<open>error\<close> events.\<close>

fun close_statuses :: "'e child_event list \<Rightarrow> int option list" where
  "close_statuses [] = []"
| "close_statuses (Close status # evs) = status # close_statuses evs"
| "close_statuses (Error err # evs) = close_statuses evs"

fun error_values :: "'e child_event list \<Rightarrow> 'e list" where
  "error_values [] = []"
| "error_values (Close status # evs) = error_values evs"
| "error_values (Error err # evs) = err # error_values evs"

fun settlements :: "string \<Rightarrow> 'e child_event list \<Rightarrow> 'e launch \<Rightarrow> nat" where
  "settlements path [] l = 0"
| "settlements path (ev # evs) l =
     (if promise (emit path ev l) = promise l then 0 else 1)
       + settlements path evs (emit path ev l)"

section \<open>The framework-aware launcher\<close>

text \<open>
  \<^verbatim>\<open>getEnvVariablesMap\<close> is imported from \<^verbatim>\<open>core/params/env-variables\<close>: here it
  is a parameter \<open>getEnvVariablesMap\<close>, a function from the framework's arguments to
  a map of environment variables. \<open>delegated\<close> is the argument list with which
  \<^verbatim>\<open>runScriptWithHardhat\<close> calls \<^verbatim>\<open>runScript\<close>.
\<close>

definition registerModule :: "host \<Rightarrow> string" where
  "registerModule h = path_join h [dirname h, ''..'', ''..'', ''register'']"

definition delegated ::
  "('a \<Rightarrow> (string \<rightharpoonup> string)) \<Rightarrow> host \<Rightarrow> 'a \<Rightarrow> request \<Rightarrow> request" where
  "delegated getEnvVariablesMap h hardhatArguments r =
     \<lparr>scriptPath = scriptPath r, scriptArgs = scriptArgs r,
      extraNodeArgs = extraNodeArgs r @ [''--require'', registerModule h],
      extraEnvVars = getEnvVariablesMap hardhatArguments ++ extraEnvVars r\<rparr>"

text \<open>The log line comes first, then everything \<^verbatim>\<open>runScript\<close> does.\<close>

definition runScriptWithHardhat ::
  "('a \<Rightarrow> (string \<rightharpoonup> string)) \<Rightarrow> host \<Rightarrow> 'a \<Rightarrow> request \<Rightarrow> 'e forking
     \<Rightarrow> fork_call \<times> 'e launch" where
  "runScriptWithHardhat getEnvVariablesMap h hardhatArguments r child =
     (case runScript h (delegated getEnvVariablesMap h hardhatArguments r) child of
        (call, l) \<Rightarrow> (call, l\<lparr>logged := Creating (scriptPath r) # logged l\<rparr>))"

section \<open>Example inputs\<close>

text \<open>
  A host whose launcher is installed under \<^verbatim>\<open>/hh/internal/util\<close>, where
  \<^verbatim>\<open>path.join(__dirname, "..", "..", "register")\<close> is \<^verbatim>\<open>/hh/register\<close>;
  \<open>join_at_hh\<close> is \<^verbatim>\<open>path.join\<close> at the segments the launcher passes (its other
  values are not used). The host is given by its runtime arguments and by the file name
  of the launcher's module, compiled (\<^verbatim>\<open>.js\<close>) or run from source (\<^verbatim>\<open>.ts\<close>).
\<close>

definition join_at_hh :: "string list \<Rightarrow> string" where
  "join_at_hh segments =
     (if segments = [''/hh/internal/util'', ''..'', ''..'', ''register'']
      then ''/hh/register'' else concat segments)"

text \<open>
  The lower-casing of a runtime on the strings whose only character outside ASCII is the
  Kelvin sign U+212A (in UTF-8 the bytes E2 84 AA), which the case tables of Unicode map
  to \<^verbatim>\<open>k\<close>.
\<close>

definition kelvin_sign :: string where
  "kelvin_sign = [CHR 0xE2, CHR 0x84, CHR 0xAA]"

fun lower_kelvin :: "string \<Rightarrow> string" where
  "lower_kelvin (a # b # c # cs) =
     (if [a, b, c] = kelvin_sign then CHR ''k'' # lower_kelvin cs
      else lowerAsciiChar a # lower_kelvin (b # c # cs))"
| "lower_kelvin cs = lowerAscii cs"

definition host_of :: "string list \<Rightarrow> string \<Rightarrow> host" where
  "host_of argv file =
     \<lparr>execArgv = argv,
      env = [''PATH'' \<mapsto> ''/usr/bin'', ''HARDHAT_NETWORK'' \<mapsto> ''localhost''],
      filename = file, dirname = ''/hh/internal/util'', path_join = join_at_hh,
      unicodeLower = lower_kelvin\<rparr>"

definition compiled_launcher :: string where
  "compiled_launcher = ''/hh/internal/util/scripts-runner.js''"

definition source_launcher :: string where
  "source_launcher = ''/hh/internal/util/scripts-runner.ts''"

definition request_of :: "string \<Rightarrow> string list \<Rightarrow> request" where
  "request_of path extra =
     \<lparr>scriptPath = path, scriptArgs = [''--fast''], extraNodeArgs = extra,
      extraEnvVars = [''HARDHAT_NETWORK'' \<mapsto> ''goerli'', ''DEBUG'' \<mapsto> ''1'']\<rparr>"

definition framework_env :: "string \<Rightarrow> (string \<rightharpoonup> string)" where
  "framework_env network =
     [''HARDHAT_NETWORK'' \<mapsto> network, ''HARDHAT_VERBOSE'' \<mapsto> ''true'']"

section \<open>Strings: the library's notions\<close>

lemma startsWith_prefix: "startsWith s pat = prefix pat s"
  by (induction s pat rule: startsWith.induct) auto

lemma includes_str_sublist: "includes_str s pat = sublist pat s"
proof (induction s)
  case Nil
  then show ?case by (cases pat) simp_all
next
  case (Cons c cs)
  then show ?case by (simp add: startsWith_prefix sublist_Cons_right)
qed

lemmas case_tables =
  lowerAsciiChar_def canonicalize_def same_ci_def upper_letters_def lower_letters_def

lemmas lower_case_defs = toLowerCase_def isAscii_def lowerAscii_def kelvin_sign_def case_tables

lemma lower_dot: "lowerAsciiChar c = CHR ''.'' \<longleftrightarrow> c = CHR ''.''"
  by (auto simp: case_tables)
lemma lower_t: "lowerAsciiChar c = CHR ''t'' \<longleftrightarrow> same_ci c (CHR ''t'')"
  by (auto simp: case_tables)
lemma lower_s: "lowerAsciiChar c = CHR ''s'' \<longleftrightarrow> same_ci c (CHR ''s'')"
  by (auto simp: case_tables)
lemma lower_x: "lowerAsciiChar c = CHR ''x'' \<longleftrightarrow> same_ci c (CHR ''x'')"
  by (auto simp: case_tables)

lemma match_tsx_lower:
  "match_tsx ext \<longleftrightarrow> lowerAscii ext = ''.ts'' \<or> lowerAscii ext = ''.tsx''"
  by (cases ext rule: match_tsx.cases)
    (auto simp: lowerAscii_def lower_dot lower_t lower_s lower_x)

lemma test_tsx_split: "test_tsx p \<longleftrightarrow> (\<exists>stem ext. p = stem @ ext \<and> match_tsx ext)"
proof (induction p)
  case Nil
  then show ?case by simp
next
  case (Cons c cs)
  note IH = Cons.IH
  show ?case
  proof
    assume "test_tsx (c # cs)"
    then consider "match_tsx (c # cs)" | "test_tsx cs" by auto
    then show "\<exists>stem ext. c # cs = stem @ ext \<and> match_tsx ext"
    proof cases
      case 1
      then have "c # cs = [] @ (c # cs) \<and> match_tsx (c # cs)" by simp
      then show ?thesis by blast
    next
      case 2
      with IH obtain stem ext where "cs = stem @ ext" "match_tsx ext" by blast
      then have "c # cs = (c # stem) @ ext \<and> match_tsx ext" by simp
      then show ?thesis by blast
    qed
  next
    assume "\<exists>stem ext. c # cs = stem @ ext \<and> match_tsx ext"
    then obtain stem ext where se: "c # cs = stem @ ext" "match_tsx ext" by blast
    show "test_tsx (c # cs)"
    proof (cases stem)
      case Nil
      with se have "match_tsx (c # cs)" by simp
      then show ?thesis by simp
    next
      case (Cons a stem')
      with se have "cs = stem' @ ext" by simp
      with se(2) IH have "test_tsx cs" by blast
      then show ?thesis by simp
    qed
  qed
qed

lemma endsWith_suffix: "endsWith s suf = suffix suf s"
proof
  assume "endsWith s suf"
  then have "s = take (length s - length suf) s @ suf"
    by (metis append_take_drop_id endsWith_def)
  then show "suffix suf s" by (rule suffixI)
next
  assume "suffix suf s"
  then obtain zs where "s = zs @ suf" by (auto elim: suffixE)
  then show "endsWith s suf" by (simp add: endsWith_def)
qed

lemma endsWith_lower:
  "endsWith (lowerAscii p) suf \<longleftrightarrow> (\<exists>stem ext. p = stem @ ext \<and> lowerAscii ext = suf)"
  unfolding endsWith_suffix suffix_def lowerAscii_def
  by (auto simp: map_eq_append_conv append_eq_map_conv)

lemma test_tsx_endsWith:
  "test_tsx p \<longleftrightarrow> endsWith (lowerAscii p) ''.ts'' \<or> endsWith (lowerAscii p) ''.tsx''"
  unfolding test_tsx_split match_tsx_lower endsWith_lower by blast

lemmas example_defs = host_of_def request_of_def compiled_launcher_def source_launcher_def
  join_at_hh_def framework_env_def

section \<open>Claims about the argument deriver\<close>

text \<open>
  Claim C2. For every array of arguments, \<^verbatim>\<open>withFixedInspectArg\<close> returns an array
  of the same length in which, at every index, an element whose lower case form contains
  the substring \<^verbatim>\<open>--inspect-brk=\<close> is replaced by exactly \<^verbatim>\<open>--inspect\<close>, and
  every other element is the element of the input at that index. "Contains the
  substring" is the library's \<open>sublist\<close>, and the lower case form is that of
  \<^verbatim>\<open>toLowerCase\<close> in any runtime (for every \<open>lower\<close>).
\<close>

theorem withFixedInspectArg_elementwise:
  "length (withFixedInspectArg lower argv) = length argv \<and>
   (\<forall>i < length argv.
      withFixedInspectArg lower argv ! i =
        (if sublist ''--inspect-brk='' (toLowerCase lower (argv ! i)) then ''--inspect''
         else argv ! i))"
  by (simp add: withFixedInspectArg_def fixIfInspectArg_def includes_str_sublist)

text \<open>
  The example of the specification, with two more arguments: one in mixed case, and one
  whose lower case form has the pattern only through the Kelvin sign.
\<close>

theorem withFixedInspectArg_elementwise_witness:
  "withFixedInspectArg lower_kelvin
     [''--foo'', ''--inspect-brk=9229'', ''--bar'', ''--Inspect-BRK=1'',
      ''--inspect-br'' @ kelvin_sign @ ''=9229'']
     = [''--foo'', ''--inspect'', ''--bar'', ''--inspect'', ''--inspect'']"
proof -
  let ?argv = "[''--foo'', ''--inspect-brk=9229'', ''--bar'', ''--Inspect-BRK=1'',
      ''--inspect-br'' @ kelvin_sign @ ''=9229'']"
  let ?out = "withFixedInspectArg lower_kelvin ?argv"
  note th = withFixedInspectArg_elementwise [of lower_kelvin ?argv]
  from th have len: "length ?out = 5" by simp
  from th have el: "\<And>i. i < 5 \<Longrightarrow> ?out ! i =
        (if sublist ''--inspect-brk='' (toLowerCase lower_kelvin (?argv ! i)) then ''--inspect''
         else ?argv ! i)"
    by simp
  have "?out ! 0 = ''--foo''"
    using el [of 0] by (simp add: lower_case_defs sublist_code)
  moreover have "?out ! 1 = ''--inspect''"
    using el [of 1] by (simp add: lower_case_defs sublist_code)
  moreover have "?out ! 2 = ''--bar''"
    using el [of 2] by (simp add: lower_case_defs sublist_code)
  moreover have "?out ! 3 = ''--inspect''"
    using el [of 3] by (simp add: lower_case_defs sublist_code)
  moreover have "?out ! 4 = ''--inspect''"
    using el [of 4] by (simp add: lower_case_defs sublist_code)
  ultimately show ?thesis
    using len by (auto simp: list_eq_iff_nth_eq less_Suc_eq numeral_nat)
qed

text \<open>
  The replacement \<^verbatim>\<open>--inspect\<close> is ASCII, so its lower case form is its own, in
  every runtime, and it is not itself replaced.
\<close>

lemma fixIfInspectArg_idem:
  "fixIfInspectArg lower (fixIfInspectArg lower arg) = fixIfInspectArg lower arg"
proof (cases "includes_str (toLowerCase lower arg) ''--inspect-brk=''")
  case True
  have "\<not> includes_str (toLowerCase lower ''--inspect'') ''--inspect-brk=''"
    by (simp add: toLowerCase_def isAscii_def lowerAscii_def case_tables)
  with True show ?thesis by (simp add: fixIfInspectArg_def)
next
  case False
  then show ?thesis by (simp add: fixIfInspectArg_def)
qed

text \<open>
  Claim C9. \<^verbatim>\<open>withFixedInspectArg\<close> is idempotent: applying it twice yields the
  same array as applying it once.
\<close>

theorem withFixedInspectArg_idempotent:
  "withFixedInspectArg lower (withFixedInspectArg lower argv) = withFixedInspectArg lower argv"
  by (simp add: withFixedInspectArg_def fixIfInspectArg_idem)

theorem withFixedInspectArg_idempotent_witness:
  "withFixedInspectArg lower_kelvin
     (withFixedInspectArg lower_kelvin [''--inspect-brk=9229'', ''--inspect-brk'']) =
     [''--inspect'', ''--inspect-brk'']"
  using withFixedInspectArg_idempotent [of lower_kelvin "[''--inspect-brk=9229'', ''--inspect-brk'']"]
  by (simp add: withFixedInspectArg_def fixIfInspectArg_def lower_case_defs)

text \<open>
  Claim C3. If the host's runtime arguments contain the marker \<^verbatim>\<open>ts-node/register\<close>,
  \<^verbatim>\<open>getTsNodeArgsIfNeeded\<close> returns the empty array, for every script path and
  whatever the file name of the launcher is.
\<close>

theorem getTsNodeArgsIfNeeded_marker:
  "''ts-node/register'' \<in> set (execArgv h) \<Longrightarrow> getTsNodeArgsIfNeeded h path = []"
  by (simp add: getTsNodeArgsIfNeeded_def)

text \<open>A host that has the marker and runs the launcher from source, a script in \<^verbatim>\<open>.ts\<close>.\<close>

theorem getTsNodeArgsIfNeeded_marker_witness:
  "getTsNodeArgsIfNeeded (host_of [''--require'', ''ts-node/register''] source_launcher) ''run.ts''
     = []"
proof -
  have "''ts-node/register'' \<in>
      set (execArgv (host_of [''--require'', ''ts-node/register''] source_launcher))"
    by (simp add: example_defs)
  then show ?thesis by (rule getTsNodeArgsIfNeeded_marker)
qed

text \<open>
  Claim C4. For a script path that ends, compared without regard to case, with
  \<^verbatim>\<open>.ts\<close> or \<^verbatim>\<open>.tsx\<close>, and a host without the marker,
  \<^verbatim>\<open>getTsNodeArgsIfNeeded\<close> returns exactly the pair \<^verbatim>\<open>--require\<close>,
  \<^verbatim>\<open>ts-node/register\<close>; for a script path that does not end so, and a launcher whose
  own file name does not end with \<^verbatim>\<open>.ts\<close>, it returns the empty array. The ending
  is stated on the ASCII lower case form of the path, not by the regular expression of
  the code.
\<close>

theorem getTsNodeArgsIfNeeded_extension:
  "(''ts-node/register'' \<notin> set (execArgv h) \<and>
      (endsWith (lowerAscii path) ''.ts'' \<or> endsWith (lowerAscii path) ''.tsx'')
     \<longrightarrow> getTsNodeArgsIfNeeded h path = [''--require'', ''ts-node/register'']) \<and>
   (\<not> (endsWith (lowerAscii path) ''.ts'' \<or> endsWith (lowerAscii path) ''.tsx'') \<and>
      \<not> endsWith (filename h) ''.ts''
     \<longrightarrow> getTsNodeArgsIfNeeded h path = [])"
  by (simp add: getTsNodeArgsIfNeeded_def test_tsx_endsWith)

theorem getTsNodeArgsIfNeeded_extension_witness:
  "getTsNodeArgsIfNeeded (host_of [''--inspect''] compiled_launcher) ''script.TS''
     = [''--require'', ''ts-node/register''] \<and>
   getTsNodeArgsIfNeeded (host_of [''--inspect''] compiled_launcher) ''src/App.tsx''
     = [''--require'', ''ts-node/register''] \<and>
   getTsNodeArgsIfNeeded (host_of [''--inspect''] compiled_launcher) ''script.ts.js'' = []"
proof -
  let ?h = "host_of [''--inspect''] compiled_launcher"
  have m: "''ts-node/register'' \<notin> set (execArgv ?h)" by (simp add: example_defs)
  have f: "\<not> endsWith (filename ?h) ''.ts''" by (simp add: example_defs endsWith_def)
  have a: "endsWith (lowerAscii ''script.TS'') ''.ts''"
    by (simp add: endsWith_def lowerAscii_def case_tables)
  have b: "endsWith (lowerAscii ''src/App.tsx'') ''.tsx''"
    by (simp add: endsWith_def lowerAscii_def case_tables)
  have c: "\<not> (endsWith (lowerAscii ''script.ts.js'') ''.ts'' \<or>
               endsWith (lowerAscii ''script.ts.js'') ''.tsx'')"
    by (simp add: endsWith_def lowerAscii_def case_tables)
  show ?thesis
    using getTsNodeArgsIfNeeded_extension [of ?h "''script.TS''"]
      getTsNodeArgsIfNeeded_extension [of ?h "''src/App.tsx''"]
      getTsNodeArgsIfNeeded_extension [of ?h "''script.ts.js''"] m f a b c
    by blast
qed

text \<open>
  Claim C10. The marker is found by equality with a whole element. Where the loader
  pair is otherwise due (the script path matches, or the launcher runs from source), the
  result is empty if and only if some runtime argument equals \<^verbatim>\<open>ts-node/register\<close>;
  and when every runtime argument only contains that string as a proper substring, the
  pair is still returned.
\<close>

theorem marker_exact_element:
  assumes "test_tsx path \<or> endsWith (filename h) ''.ts''"
  shows "(getTsNodeArgsIfNeeded h path = [] \<longleftrightarrow>
            (\<exists>a \<in> set (execArgv h). a = ''ts-node/register'')) \<and>
         ((\<forall>a \<in> set (execArgv h). strict_sublist ''ts-node/register'' a)
            \<longrightarrow> getTsNodeArgsIfNeeded h path = [''--require'', ''ts-node/register''])"
  using assms by (auto simp: getTsNodeArgsIfNeeded_def)

text \<open>
  Runtime arguments that contain the marker as a proper substring
  (\<^verbatim>\<open>--require=ts-node/register\<close>, a path ending in \<^verbatim>\<open>ts-node/register.js\<close>), and
  runtime arguments with the marker as an element.
\<close>

theorem marker_exact_element_witness:
  "getTsNodeArgsIfNeeded
     (host_of [''--require=ts-node/register'', ''/n/ts-node/register.js''] compiled_launcher)
     ''run.ts'' = [''--require'', ''ts-node/register''] \<and>
   getTsNodeArgsIfNeeded (host_of [''-r'', ''ts-node/register''] compiled_launcher) ''run.ts'' = []"
proof -
  let ?h = "host_of [''--require=ts-node/register'', ''/n/ts-node/register.js''] compiled_launcher"
  let ?k = "host_of [''-r'', ''ts-node/register''] compiled_launcher"
  have t: "test_tsx ''run.ts''" by (simp add: case_tables)
  have s: "\<forall>a \<in> set (execArgv ?h). strict_sublist ''ts-node/register'' a"
    by (simp add: example_defs strict_sublist_def sublist_code)
  have e: "\<exists>a \<in> set (execArgv ?k). a = ''ts-node/register''"
    by (simp add: example_defs)
  from marker_exact_element [of "''run.ts''" ?h] t s
  have 1: "getTsNodeArgsIfNeeded ?h ''run.ts'' = [''--require'', ''ts-node/register'']" by blast
  from marker_exact_element [of "''run.ts''" ?k] t e
  have 2: "getTsNodeArgsIfNeeded ?k ''run.ts'' = []" by blast
  from 1 2 show ?thesis by simp
qed

section \<open>Claims about the script launcher\<close>

text \<open>
  Claim C5. The runtime arguments that \<^verbatim>\<open>runScript\<close> passes to \<^verbatim>\<open>fork\<close> as
  \<^verbatim>\<open>execArgv\<close> are, in this order: the host's runtime arguments after
  \<^verbatim>\<open>withFixedInspectArg\<close>, the arguments of \<^verbatim>\<open>getTsNodeArgsIfNeeded\<close> for the
  script path, the caller's extra runtime arguments.
\<close>

theorem runScript_nodeArgs:
  "opt_execArgv (fst (runScript h r child)) =
     withFixedInspectArg (unicodeLower h) (execArgv h) @
       getTsNodeArgsIfNeeded h (scriptPath r) @ extraNodeArgs r"
  by (simp add: runScript_def forked_def nodeArgs_def)

text \<open>A host started with a debugger port, a script in \<^verbatim>\<open>.ts\<close>, one extra argument.\<close>

theorem runScript_nodeArgs_witness:
  "opt_execArgv (fst (runScript (host_of [''--inspect-brk=9229'', ''--no-warnings''] compiled_launcher)
      (request_of ''deploy.ts'' [''--trace-warnings''])
      (Spawned [Close (Some 0) :: unit child_event])))
    = [''--inspect'', ''--no-warnings'', ''--require'', ''ts-node/register'', ''--trace-warnings'']"
  using runScript_nodeArgs [of "host_of [''--inspect-brk=9229'', ''--no-warnings''] compiled_launcher"
      "request_of ''deploy.ts'' [''--trace-warnings'']"
      "Spawned [Close (Some 0) :: unit child_event]"]
  by (simp add: example_defs withFixedInspectArg_def fixIfInspectArg_def lower_case_defs
      getTsNodeArgsIfNeeded_def endsWith_def case_tables)

text \<open>
  Claim C6. The environment that \<^verbatim>\<open>runScript\<close> passes to \<^verbatim>\<open>fork\<close> maps a key
  to the value of \<^verbatim>\<open>extraEnvVars\<close> when the key is in both maps, to the value of
  \<^verbatim>\<open>extraEnvVars\<close> when it is only there, and to the inherited value of
  \<^verbatim>\<open>process.env\<close> otherwise.
\<close>

theorem runScript_envVars:
  "(k \<in> dom (env h) \<and> k \<in> dom (extraEnvVars r)
      \<longrightarrow> opt_env (fst (runScript h r child)) k = extraEnvVars r k) \<and>
   (k \<notin> dom (env h) \<and> k \<in> dom (extraEnvVars r)
      \<longrightarrow> opt_env (fst (runScript h r child)) k = extraEnvVars r k) \<and>
   (k \<notin> dom (extraEnvVars r)
      \<longrightarrow> opt_env (fst (runScript h r child)) k = env h k)"
  by (auto simp: runScript_def forked_def envVars_def map_add_def split: option.splits)

text \<open>One key of each kind: in both maps, only in \<^verbatim>\<open>extraEnvVars\<close>, only inherited.\<close>

theorem runScript_envVars_witness:
  "opt_env (fst (runScript (host_of [] compiled_launcher) (request_of ''s.js'' [])
       (Spawned ([] :: unit child_event list)))) ''HARDHAT_NETWORK'' = Some ''goerli'' \<and>
   opt_env (fst (runScript (host_of [] compiled_launcher) (request_of ''s.js'' [])
       (Spawned ([] :: unit child_event list)))) ''DEBUG'' = Some ''1'' \<and>
   opt_env (fst (runScript (host_of [] compiled_launcher) (request_of ''s.js'' [])
       (Spawned ([] :: unit child_event list)))) ''PATH'' = Some ''/usr/bin''"
proof -
  let ?h = "host_of [] compiled_launcher"
  let ?r = "request_of ''s.js'' []"
  let ?evs = "Spawned ([] :: unit child_event list)"
  have both: "''HARDHAT_NETWORK'' \<in> dom (env ?h) \<and> ''HARDHAT_NETWORK'' \<in> dom (extraEnvVars ?r)"
    by (simp add: example_defs)
  have extra: "''DEBUG'' \<notin> dom (env ?h) \<and> ''DEBUG'' \<in> dom (extraEnvVars ?r)"
    by (simp add: example_defs)
  have inherited: "''PATH'' \<notin> dom (extraEnvVars ?r)"
    by (simp add: example_defs)
  have "opt_env (fst (runScript ?h ?r ?evs)) ''HARDHAT_NETWORK'' = extraEnvVars ?r ''HARDHAT_NETWORK''"
    using runScript_envVars [of "''HARDHAT_NETWORK''" ?h ?r ?evs] both by blast
  moreover have "opt_env (fst (runScript ?h ?r ?evs)) ''DEBUG'' = extraEnvVars ?r ''DEBUG''"
    using runScript_envVars [of "''DEBUG''" ?h ?r ?evs] extra by blast
  moreover have "opt_env (fst (runScript ?h ?r ?evs)) ''PATH'' = env ?h ''PATH''"
    using runScript_envVars [of "''PATH''" ?h ?r ?evs] inherited by blast
  ultimately show ?thesis by (simp add: example_defs)
qed

text \<open>A settled promise stays as it is under every further event.\<close>

lemma emit_settled: "promise l \<noteq> Pending \<Longrightarrow> promise (emit path ev l) = promise l"
  by (cases ev) (simp_all add: closeListener_def resolve_def reject_def)

lemma emit_all_settled: "promise l \<noteq> Pending \<Longrightarrow> promise (emit_all path evs l) = promise l"
  by (induction evs arbitrary: l) (simp_all add: emit_settled)

lemma settlements_settled: "promise l \<noteq> Pending \<Longrightarrow> settlements path evs l = 0"
  by (induction evs arbitrary: l) (simp_all add: emit_settled)

text \<open>The first event finds its listener registered and the promise pending.\<close>

lemma emit_first:
  "promise (emit path ev subscribed) =
     (case ev of Close status \<Rightarrow> Resolved status | Error err \<Rightarrow> Rejected err)"
  by (cases ev) (simp_all add: subscribed_def closeListener_def resolve_def reject_def)

lemma emit_first_settles: "promise (emit path ev subscribed) \<noteq> Pending"
  by (simp add: emit_first split: child_event.split)

text \<open>Before the child process emits an event the promise is pending.\<close>

lemma runScript_pending: "promise (snd (runScript h r (Spawned []))) = Pending"
  by (simp add: runScript_def subscribed_def)

text \<open>
  Each listener is one-shot. It stays registered as long as its event has not been
  emitted and is removed by the first one; the listener of \<^verbatim>\<open>close\<close>, which
  writes a log line whenever it runs, runs for the first \<^verbatim>\<open>close\<close> event only.
\<close>

lemma emit_all_onceClose:
  "onceClose (emit_all path evs l) = (onceClose l \<and> close_statuses evs = [])"
  by (induction evs arbitrary: l rule: close_statuses.induct)
    (simp_all add: closeListener_def resolve_def reject_def)

lemma emit_all_onceError:
  "onceError (emit_all path evs l) = (onceError l \<and> error_values evs = [])"
  by (induction evs arbitrary: l rule: error_values.induct)
    (simp_all add: closeListener_def resolve_def reject_def)

lemma emit_all_logged_removed: "\<not> onceClose l \<Longrightarrow> logged (emit_all path evs l) = logged l"
  by (induction evs arbitrary: l rule: close_statuses.induct)
    (simp_all add: reject_def)

lemma emit_all_logged:
  "onceClose l \<Longrightarrow>
     logged (emit_all path evs l) =
       logged l @ map (ExitedWith path) (take 1 (close_statuses evs))"
  by (induction evs arbitrary: l rule: close_statuses.induct)
    (simp_all add: closeListener_def resolve_def reject_def emit_all_logged_removed)

text \<open>
  Claim C7, as the code has it. When \<^verbatim>\<open>fork\<close> returns the handle of a child
  process and the child emits an event, the promise of \<^verbatim>\<open>runScript\<close> is settled by
  the first event alone: resolved with the status of a \<^verbatim>\<open>close\<close> event (a number
  or \<^verbatim>\<open>null\<close>), rejected with the error of an \<^verbatim>\<open>error\<close> event. The events
  after the first leave the promise as it is, whatever they are and however many: along
  the whole sequence the promise changes exactly once. Both subscriptions are one-shot:
  a listener is registered afterwards if and only if its event was not emitted, and the
  log has one line, for the first \<^verbatim>\<open>close\<close> event, or none. When \<^verbatim>\<open>fork\<close>
  throws, the promise is rejected with what was thrown, neither listener is registered
  and nothing is logged.
\<close>

theorem runScript_settles_once:
  "promise (snd (runScript h r (Spawned ((ev :: 'e child_event) # evs)))) =
     (case ev of Close status \<Rightarrow> Resolved status | Error err \<Rightarrow> Rejected err) \<and>
   settlements (scriptPath r) (ev # evs) subscribed = 1 \<and>
   onceClose (snd (runScript h r (Spawned (ev # evs)))) = (close_statuses (ev # evs) = []) \<and>
   onceError (snd (runScript h r (Spawned (ev # evs)))) = (error_values (ev # evs) = []) \<and>
   logged (snd (runScript h r (Spawned (ev # evs)))) =
     map (ExitedWith (scriptPath r)) (take 1 (close_statuses (ev # evs))) \<and>
   snd (runScript h r (Threw (thrown :: 'e))) =
     \<lparr>promise = Rejected thrown, onceClose = False, onceError = False, logged = []\<rparr>"
proof -
  let ?l = "snd (runScript h r (Spawned (ev # evs)))"
  have l: "?l = emit_all (scriptPath r) (ev # evs) subscribed"
    by (simp add: runScript_def)
  have "promise ?l =
      (case ev of Close status \<Rightarrow> Resolved status | Error err \<Rightarrow> Rejected err)"
    by (simp add: runScript_def emit_all_settled [OF emit_first_settles] emit_first)
  moreover have "settlements (scriptPath r) (ev # evs) subscribed = 1"
    using emit_first_settles [of "scriptPath r" ev]
    by (simp add: settlements_settled) (simp add: subscribed_def)
  moreover have "onceClose ?l = (close_statuses (ev # evs) = [])"
    unfolding l emit_all_onceClose by (simp add: subscribed_def)
  moreover have "onceError ?l = (error_values (ev # evs) = [])"
    unfolding l emit_all_onceError by (simp add: subscribed_def)
  moreover have "logged ?l = map (ExitedWith (scriptPath r)) (take 1 (close_statuses (ev # evs)))"
  proof -
    have a: "logged (emit_all (scriptPath r) (ev # evs) (subscribed :: 'e launch)) =
        logged (subscribed :: 'e launch) @
          map (ExitedWith (scriptPath r)) (take 1 (close_statuses (ev # evs)))"
      by (rule emit_all_logged) (simp add: subscribed_def)
    have b: "logged (subscribed :: 'e launch) = []" by (simp add: subscribed_def)
    show ?thesis unfolding l a b by simp
  qed
  moreover have "snd (runScript h r (Threw thrown)) =
      \<lparr>promise = Rejected thrown, onceClose = False, onceError = False, logged = []\<rparr>"
    by (simp add: runScript_def reject_def created_def)
  ultimately show ?thesis by blast
qed

text \<open>
  A launch error followed by \<^verbatim>\<open>close\<close>: the promise is rejected, and the listener
  of \<^verbatim>\<open>close\<close> still runs once and writes its line. Two \<^verbatim>\<open>close\<close> events: the
  promise has the status of the first, the log one line, and the listener of
  \<^verbatim>\<open>error\<close> is still registered.
\<close>

theorem runScript_settles_once_witness:
  "promise (snd (runScript (host_of [] compiled_launcher) (request_of ''s.js'' [])
      (Spawned [Error ''ENOENT'', Close (Some (-2))]))) = Rejected ''ENOENT'' \<and>
   logged (snd (runScript (host_of [] compiled_launcher) (request_of ''s.js'' [])
      (Spawned [Error ''ENOENT'', Close (Some (-2))]))) = [ExitedWith ''s.js'' (Some (-2))] \<and>
   settlements ''s.js'' [Error ''ENOENT'', Close (Some (-2))] (subscribed :: string launch) = 1 \<and>
   promise (snd (runScript (host_of [] compiled_launcher) (request_of ''s.js'' [])
      (Spawned [Close None, Close (Some 1) :: string child_event]))) = Resolved None \<and>
   logged (snd (runScript (host_of [] compiled_launcher) (request_of ''s.js'' [])
      (Spawned [Close None, Close (Some 1) :: string child_event]))) = [ExitedWith ''s.js'' None] \<and>
   onceError (snd (runScript (host_of [] compiled_launcher) (request_of ''s.js'' [])
      (Spawned [Close None, Close (Some 1) :: string child_event]))) \<and>
   \<not> onceClose (snd (runScript (host_of [] compiled_launcher) (request_of ''s.js'' [])
      (Spawned [Close None, Close (Some 1) :: string child_event])))"
proof -
  let ?h = "host_of [] compiled_launcher"
  let ?r = "request_of ''s.js'' []"
  have p: "scriptPath ?r = ''s.js''" by (simp add: request_of_def)
  note failed =
    runScript_settles_once [of ?h ?r "Error ''ENOENT''" "[Close (Some (-2))]" "''thrown''"]
  note exited =
    runScript_settles_once [of ?h ?r "Close None :: string child_event" "[Close (Some 1)]"
      "''thrown''"]
  from failed have "promise (snd (runScript ?h ?r (Spawned [Error ''ENOENT'', Close (Some (-2))])))
      = Rejected ''ENOENT''" by simp
  moreover from failed p
  have "logged (snd (runScript ?h ?r (Spawned [Error ''ENOENT'', Close (Some (-2))])))
      = [ExitedWith ''s.js'' (Some (-2))]" by simp
  moreover from failed p
  have "settlements ''s.js'' [Error ''ENOENT'', Close (Some (-2))] (subscribed :: string launch) = 1"
    by simp
  moreover from exited
  have "promise (snd (runScript ?h ?r (Spawned [Close None, Close (Some 1) :: string child_event])))
      = Resolved None" by simp
  moreover from exited p
  have "logged (snd (runScript ?h ?r (Spawned [Close None, Close (Some 1) :: string child_event])))
      = [ExitedWith ''s.js'' None]" by simp
  moreover from exited
  have "onceError (snd (runScript ?h ?r (Spawned [Close None, Close (Some 1) :: string child_event])))"
    by simp
  moreover from exited
  have "\<not> onceClose (snd (runScript ?h ?r (Spawned [Close None, Close (Some 1) :: string child_event])))"
    by simp
  ultimately show ?thesis by blast
qed

text \<open>
  Claim C7 as stated, for every invocation, fails where \<^verbatim>\<open>fork\<close> throws: the
  promise is settled, rejected with what was thrown, although no event was emitted, so
  by neither of the two subscriptions. The module path has a null byte, for which
  \<^verbatim>\<open>fork\<close> throws.
\<close>

theorem runScript_fork_throws_counterexample:
  "promise (snd (runScript (host_of [] compiled_launcher)
      (request_of (''deploy'' @ [CHR 0x00] @ ''.js'') []) (Threw ''ERR_INVALID_ARG_VALUE'')))
     = Rejected ''ERR_INVALID_ARG_VALUE'' \<and>
   emitted (Threw ''ERR_INVALID_ARG_VALUE'') = ([] :: string child_event list)"
  by (simp add: runScript_def reject_def created_def)

section \<open>Claims about the framework-aware launcher\<close>

text \<open>
  Claim C8. The environment variables that \<^verbatim>\<open>runScriptWithHardhat\<close> passes to
  \<^verbatim>\<open>runScript\<close> are those of \<^verbatim>\<open>getEnvVariablesMap\<close> for the framework's
  arguments, overridden key by key by the caller's \<^verbatim>\<open>extraEnvVars\<close>: a key of the
  caller has the caller's value, every other key the derived one. The call of
  \<^verbatim>\<open>fork\<close> is the one \<^verbatim>\<open>runScript\<close> makes for these arguments.
\<close>

theorem delegated_envVars:
  "(k \<in> dom (extraEnvVars r) \<longrightarrow>
      extraEnvVars (delegated getEnvVariablesMap h hardhatArguments r) k = extraEnvVars r k) \<and>
   (k \<notin> dom (extraEnvVars r) \<longrightarrow>
      extraEnvVars (delegated getEnvVariablesMap h hardhatArguments r) k =
        getEnvVariablesMap hardhatArguments k) \<and>
   fst (runScriptWithHardhat getEnvVariablesMap h hardhatArguments r child) =
     fst (runScript h (delegated getEnvVariablesMap h hardhatArguments r) child)"
  by (auto simp: delegated_def runScriptWithHardhat_def runScript_def map_add_def
      split: option.splits)

text \<open>
  Claim C1, as the code has it. \<^verbatim>\<open>runScriptWithHardhat\<close> passes to
  \<^verbatim>\<open>runScript\<close> the caller's extra runtime arguments followed by the pair
  \<^verbatim>\<open>--require\<close>, register module: the pair comes after every argument of the caller,
  and it is last in the runtime arguments passed to \<^verbatim>\<open>fork\<close>.
\<close>

theorem delegated_nodeArgs:
  "extraNodeArgs (delegated getEnvVariablesMap h hardhatArguments r) =
     extraNodeArgs r @ [''--require'', registerModule h] \<and>
   opt_execArgv (fst (runScriptWithHardhat getEnvVariablesMap h hardhatArguments r child)) =
     withFixedInspectArg (unicodeLower h) (execArgv h) @ getTsNodeArgsIfNeeded h (scriptPath r) @
       extraNodeArgs r @ [''--require'', registerModule h]"
  by (simp add: delegated_def runScriptWithHardhat_def runScript_def forked_def nodeArgs_def)

text \<open>A key that both maps have, and a key that only the derived map has.\<close>

theorem delegated_envVars_witness:
  "extraEnvVars (delegated framework_env (host_of [] compiled_launcher) ''localhost''
      (request_of ''s.js'' [])) ''HARDHAT_NETWORK'' = Some ''goerli'' \<and>
   extraEnvVars (delegated framework_env (host_of [] compiled_launcher) ''localhost''
      (request_of ''s.js'' [])) ''HARDHAT_VERBOSE'' = Some ''true''"
proof -
  let ?h = "host_of [] compiled_launcher"
  let ?r = "request_of ''s.js'' []"
  let ?evs = "Spawned ([] :: unit child_event list)"
  have caller: "''HARDHAT_NETWORK'' \<in> dom (extraEnvVars ?r)"
    by (simp add: example_defs)
  have derived: "''HARDHAT_VERBOSE'' \<notin> dom (extraEnvVars ?r)"
    by (simp add: example_defs)
  have "extraEnvVars (delegated framework_env ?h ''localhost'' ?r) ''HARDHAT_NETWORK''
      = extraEnvVars ?r ''HARDHAT_NETWORK''"
    using delegated_envVars [where k = "''HARDHAT_NETWORK''" and r = ?r and h = ?h
        and getEnvVariablesMap = framework_env and hardhatArguments = "''localhost''"
        and child = ?evs] caller
    by blast
  moreover have "extraEnvVars (delegated framework_env ?h ''localhost'' ?r) ''HARDHAT_VERBOSE''
      = framework_env ''localhost'' ''HARDHAT_VERBOSE''"
    using delegated_envVars [where k = "''HARDHAT_VERBOSE''" and r = ?r and h = ?h
        and getEnvVariablesMap = framework_env and hardhatArguments = "''localhost''"
        and child = ?evs] derived
    by blast
  ultimately show ?thesis by (simp add: example_defs)
qed

text \<open>The runtime arguments of a child started through the framework-aware launcher.\<close>

theorem delegated_nodeArgs_witness:
  "opt_execArgv (fst (runScriptWithHardhat framework_env
      (host_of [''--inspect-brk=9229''] compiled_launcher) ''localhost''
      (request_of ''deploy.ts'' [''--trace-warnings''])
      (Spawned [Close (Some 0) :: unit child_event])))
    = [''--inspect'', ''--require'', ''ts-node/register'', ''--trace-warnings'',
       ''--require'', ''/hh/register'']"
proof -
  let ?h = "host_of [''--inspect-brk=9229''] compiled_launcher"
  let ?r = "request_of ''deploy.ts'' [''--trace-warnings'']"
  have fixed: "withFixedInspectArg (unicodeLower ?h) (execArgv ?h) = [''--inspect'']"
    by (simp add: example_defs withFixedInspectArg_def fixIfInspectArg_def lower_case_defs
        case_tables)
  have loader: "getTsNodeArgsIfNeeded ?h (scriptPath ?r) = [''--require'', ''ts-node/register'']"
    by (simp add: example_defs getTsNodeArgsIfNeeded_def case_tables)
  have rest: "extraNodeArgs ?r @ [''--require'', registerModule ?h]
      = [''--trace-warnings'', ''--require'', ''/hh/register'']"
    by (simp add: example_defs registerModule_def)
  show ?thesis
    using delegated_nodeArgs [where h = ?h and r = ?r and getEnvVariablesMap = framework_env
        and hardhatArguments = "''localhost''"
        and child = "Spawned [Close (Some 0) :: unit child_event]"]
      fixed loader rest
    by simp
qed

text \<open>
  Claim C1 as stated, with the pair before the caller's arguments, fails: for the one
  extra argument \<^verbatim>\<open>--trace-warnings\<close> the argument of the caller is first and the
  pair follows it.
\<close>

theorem delegated_pair_first_counterexample:
  "extraNodeArgs (delegated framework_env (host_of [] compiled_launcher) ''localhost''
      (request_of ''s.js'' [''--trace-warnings'']))
     = [''--trace-warnings'', ''--require'', ''/hh/register''] \<and>
   extraNodeArgs (delegated framework_env (host_of [] compiled_launcher) ''localhost''
      (request_of ''s.js'' [''--trace-warnings'']))
     \<noteq> [''--require'', ''/hh/register''] @ [''--trace-warnings'']"
  by (simp add: delegated_def registerModule_def example_defs)

end
